theory Spec2Isabelle
  imports Complex_Main
begin

section \<open>The whiteboard session server (src/index.ts)\<close>

text \<open>
  The server keeps three process-wide maps (\<open>activeClients\<close>, \<open>roomUserMap\<close>,
  \<open>roomShapes\<close>) and runs one handler per incoming WebSocket message and one per close
  event. Each handler is modelled as a function from the state before to the state after,
  together with the list of \<open>send\<close> calls it makes, in order. A handler that awaits
  the database is cut at the \<open>await\<close>: the part before returns the pending query, the part
  after is a second function that takes the reply and the state as it is by then.
\<close>

subsection \<open>JavaScript values\<close>

text \<open>
  A JavaScript number is a double: a finite one is represented by its exact rational
  value (there is no separate negative zero, which the program cannot tell from zero),
  the others are the two infinities and NaN.
\<close>

datatype jsnum = Fin rat | PosInf | NegInf | NaN

text \<open>What \<open>JSON.parse\<close> returns. A value that may also be \<open>undefined\<close> is a
  \<open>json option\<close>, with \<open>None\<close> for \<open>undefined\<close>.\<close>

datatype json =
    JNull
  | JBool bool
  | JNum jsnum
  | JStr string
  | JArr "json list"
  | JObj "(string \<times> json) list"

text \<open>The argument of the message handler: the text either fails to parse or parses.\<close>

datatype incoming = Unparsable | Parsed json

text \<open>Property access \<open>parsed.name\<close> on a non-null parsed value: an own property of an
  object, \<open>undefined\<close> otherwise (none of the names the program reads is inherited).\<close>

fun field :: "json \<Rightarrow> string \<Rightarrow> json option" where
  "field (JObj kvs) name = map_of kvs name"
| "field _ name = None"

text \<open>\<open>!v\<close> is \<open>\<not> truthy v\<close>.\<close>

fun truthy :: "json option \<Rightarrow> bool" where
  "truthy None = False"
| "truthy (Some JNull) = False"
| "truthy (Some (JBool b)) = b"
| "truthy (Some (JNum n)) = (n \<noteq> NaN \<and> n \<noteq> Fin 0)"
| "truthy (Some (JStr s)) = (s \<noteq> [])"
| "truthy (Some (JArr vs)) = True"
| "truthy (Some (JObj kvs)) = True"

text \<open>\<open>Number(v)\<close>. The conversion of a string, an array or an object (through its string
  form) is the language's and is taken as the parameter \<open>conv\<close>.\<close>

fun Number_js :: "(json \<Rightarrow> jsnum) \<Rightarrow> json option \<Rightarrow> jsnum" where
  "Number_js conv None = NaN"
| "Number_js conv (Some JNull) = Fin 0"
| "Number_js conv (Some (JBool b)) = Fin (if b then 1 else 0)"
| "Number_js conv (Some (JNum n)) = n"
| "Number_js conv (Some v) = conv v"

text \<open>\<open>a === b\<close> on numbers: NaN equals nothing.\<close>

definition strict_eq_num :: "jsnum \<Rightarrow> jsnum \<Rightarrow> bool" where
  "strict_eq_num a b = (a \<noteq> NaN \<and> b \<noteq> NaN \<and> a = b)"

text \<open>\<open>a === b\<close> on parsed values, and the key comparison of \<open>Map\<close>. Scalars are compared
  by value. Arrays and objects are compared by identity in JavaScript; the program only
  ever compares against a stored room identifier, which is a key the database has found,
  that is a scalar, and there equality of values gives the same answer.\<close>

fun strict_eq_json :: "json \<Rightarrow> json \<Rightarrow> bool" where
  "strict_eq_json (JNum a) (JNum b) = strict_eq_num a b"
| "strict_eq_json a b = (a = b)"

subsection \<open>Map and Set\<close>

text \<open>A JavaScript \<open>Map\<close> iterates in insertion order, so it is an association list
  with distinct keys: \<open>set\<close> on a key that is present replaces the value in place, on a new
  key appends. A \<open>Set\<close> is the list of its members in insertion order.\<close>

definition map_get :: "('k \<times> 'v) list \<Rightarrow> 'k \<Rightarrow> 'v option" where
  "map_get m k = map_of m k"

fun map_set :: "('k \<times> 'v) list \<Rightarrow> 'k \<Rightarrow> 'v \<Rightarrow> ('k \<times> 'v) list" where
  "map_set [] k v = [(k, v)]"
| "map_set ((k', v') # m) k v = (if k' = k then (k, v) # m else (k', v') # map_set m k v)"

definition map_delete :: "('k \<times> 'v) list \<Rightarrow> 'k \<Rightarrow> ('k \<times> 'v) list" where
  "map_delete m k = filter (\<lambda>kv. fst kv \<noteq> k) m"

definition set_add :: "'a list \<Rightarrow> 'a \<Rightarrow> 'a list" where
  "set_add s x = (if x \<in> set s then s else s @ [x])"

definition set_delete :: "'a list \<Rightarrow> 'a \<Rightarrow> 'a list" where
  "set_delete s x = removeAll x s"

subsection \<open>Arrays\<close>

text \<open>
  A room's document is a JavaScript array: \<open>elems\<close> are the elements at the indices
  below \<open>length\<close> (\<open>None\<close> for a hole or \<open>undefined\<close>, which every operation of the
  program treats alike), \<open>props\<close> the properties stored under a numeric key that is not an
  array index.
\<close>

record jsarray =
  elems :: "json option list"
  props :: "(jsnum \<times> json option) list"

definition empty_array :: jsarray where
  "empty_array = \<lparr>elems = [], props = []\<rparr>"

text \<open>An array index is an integer from 0 to \<open>2^32 - 2\<close>.\<close>

definition is_array_index :: "jsnum \<Rightarrow> bool" where
  "is_array_index n =
     (case n of Fin q \<Rightarrow> q = of_int \<lfloor>q\<rfloor> \<and> 0 \<le> q \<and> q < 4294967295 | _ \<Rightarrow> False)"

text \<open>\<open>a[n] = v\<close>: at an array index beyond the end the array grows, with holes in
  between; at any other key an ordinary property is stored.\<close>

definition array_assign :: "jsarray \<Rightarrow> jsnum \<Rightarrow> json option \<Rightarrow> jsarray" where
  "array_assign a n v =
     (case n of
        Fin q \<Rightarrow>
          if is_array_index n then
            (let i = nat \<lfloor>q\<rfloor> in
             if i < length (elems a) then a\<lparr>elems := (elems a)[i := v]\<rparr>
             else a\<lparr>elems := elems a @ replicate (i - length (elems a)) None @ [v]\<rparr>)
          else a\<lparr>props := map_set (props a) n v\<rparr>
      | _ \<Rightarrow> a\<lparr>props := map_set (props a) n v\<rparr>)"

text \<open>\<open>a.push(v)\<close>: on an array of the maximal length \<open>2^32 - 1\<close> the value is stored as a
  property and setting the length throws (\<open>Inl\<close>).\<close>

definition array_push :: "jsarray \<Rightarrow> json option \<Rightarrow> jsarray + jsarray" where
  "array_push a v =
     (if length (elems a) < 4294967295 then Inr (a\<lparr>elems := elems a @ [v]\<rparr>)
      else Inl (a\<lparr>props := map_set (props a) (Fin (of_nat (length (elems a)))) v\<rparr>))"

text \<open>The start position \<open>a.splice(n, 1)\<close> computes: the number truncated to an integer,
  counted from the end when negative, clamped to \<open>0 .. length\<close>.\<close>

definition splice_start :: "jsnum \<Rightarrow> nat \<Rightarrow> nat" where
  "splice_start n len =
     (case n of
        NaN \<Rightarrow> 0
      | NegInf \<Rightarrow> 0
      | PosInf \<Rightarrow> len
      | Fin q \<Rightarrow>
          (let k = (if 0 \<le> q then \<lfloor>q\<rfloor> else \<lceil>q\<rceil>) in
           if k < 0 then nat (max (int len + k) 0) else min (nat k) len))"

definition array_splice1 :: "jsarray \<Rightarrow> jsnum \<Rightarrow> jsarray" where
  "array_splice1 a n =
     (let len = length (elems a);
          start = splice_start n len;
          deleteCount = min 1 (len - start)
      in a\<lparr>elems := take start (elems a) @ drop (start + deleteCount) (elems a)\<rparr>)"

subsection \<open>Server state and outgoing payloads\<close>

type_synonym conn = nat

datatype ws_state = CONNECTING | OPEN | CLOSING | CLOSED

record meta =
  userId :: jsnum
  roomId :: json

record server_state =
  activeClients :: "(conn \<times> meta) list"
  roomUserMap :: "(json \<times> jsnum list) list"
  roomShapes :: "(json \<times> jsarray) list"

definition initial_state :: server_state where
  "initial_state = \<lparr>activeClients = [], roomUserMap = [], roomShapes = []\<rparr>"

text \<open>The object literals handed to \<open>JSON.stringify\<close>, one constructor per shape, with
  the fields in the order of the source. A \<open>shapes\<close> field carries the elements of the
  array. A call \<open>client.send(text)\<close> is recorded as the pair of the connection and the
  payload; what the transport does with it afterwards is outside the program.\<close>

datatype outmsg =
    Error string
  | RegisterSuccess json jsnum
  | UserList "jsnum list"
  | MessageSent json
  | NewMessage json
  | Pointer jsnum jsnum json jsnum
  | Lock jsnum
  | Unlock
  | Color string jsnum
  | Init "json option list"
  | Sync "json option list"
  | Stream "json option" jsnum "json option" jsnum
  | Signal string jsnum "json option"

type_synonym sends = "(conn \<times> outmsg) list"

text \<open>
  \<open>JSON.stringify\<close> throws when the text it builds would be longer than the longest string
  of the engine, and it runs before anything is sent: in \<open>ws.send(JSON.stringify(...))\<close>,
  and in \<open>broadcastToRoom\<close> ahead of the loop, recipients or not. Every payload except a
  whole document is about as large as one message, one database row or one presence set;
  a document of at most one slot holds at most one element, which arrived in one message.
  These fit. Whether a longer document still fits depends on the engine and on its
  elements, and is the parameter \<open>fits\<close>.
\<close>

definition serialisable :: "(json option list \<Rightarrow> bool) \<Rightarrow> json option list \<Rightarrow> bool" where
  "serialisable fits d = (length d \<le> 1 \<or> fits d)"

definition stringify_throws :: "(json option list \<Rightarrow> bool) \<Rightarrow> outmsg \<Rightarrow> bool" where
  "stringify_throws fits payload =
     (case payload of
        Init d \<Rightarrow> \<not> serialisable fits d
      | Sync d \<Rightarrow> \<not> serialisable fits d
      | _ \<Rightarrow> False)"

text \<open>The replies of the database: the room looked up by \<open>findUnique\<close> (with the ids of
  its users) and the row made by \<open>chat.create\<close>; either call may reject.\<close>

datatype room_lookup = LookupThrows | LookupNull | LookupRoom "jsnum list"

datatype chat_result = ChatThrows | ChatCreated json

text \<open>A handler suspended at its \<open>await\<close>: the connection and the arguments of the query.\<close>

datatype pending =
    AwaitRoom conn json jsnum
  | AwaitChat conn json jsnum "json option"

subsection \<open>Fan-out\<close>

text \<open>The loops over \<open>activeClients.entries()\<close>. The \<open>JSON.stringify(payload)\<close> ahead
  of each loop is accounted for where the payload is a whole document, in the drawing
  cases of the message handler.\<close>

definition broadcastToRoom ::
  "(conn \<Rightarrow> ws_state) \<Rightarrow> server_state \<Rightarrow> json \<Rightarrow> outmsg \<Rightarrow> conn option \<Rightarrow> sends" where
  "broadcastToRoom rs st room payload exclude =
     (let recipients = map_get (roomUserMap st) room in
      map (\<lambda>(client, m). (client, payload))
        (filter (\<lambda>(client, m).
            Some client \<noteq> exclude \<and>
            strict_eq_json (roomId m) room \<and>
            (case recipients of None \<Rightarrow> False | Some r \<Rightarrow> userId m \<in> set r) \<and>
            rs client = OPEN)
          (activeClients st)))"

fun sendToUserInRoom ::
  "(conn \<Rightarrow> ws_state) \<Rightarrow> (conn \<times> meta) list \<Rightarrow> json \<Rightarrow> jsnum \<Rightarrow> outmsg \<Rightarrow> bool \<times> sends" where
  "sendToUserInRoom rs [] room targetUserId payload = (False, [])"
| "sendToUserInRoom rs ((client, m) # rest) room targetUserId payload =
     (if strict_eq_json (roomId m) room \<and> strict_eq_num (userId m) targetUserId \<and> rs client = OPEN
      then (True, [(client, payload)])
      else sendToUserInRoom rs rest room targetUserId payload)"

definition broadcastStreamToRoom ::
  "(conn \<Rightarrow> ws_state) \<Rightarrow> server_state \<Rightarrow> json \<Rightarrow> outmsg \<Rightarrow> conn option \<Rightarrow> sends" where
  "broadcastStreamToRoom rs st room payload sender =
     (let recipients = map_get (roomUserMap st) room in
      map (\<lambda>(client, m). (client, payload))
        (filter (\<lambda>(client, m).
            Some client \<noteq> sender \<and>
            strict_eq_json (roomId m) room \<and>
            (case recipients of None \<Rightarrow> False | Some r \<Rightarrow> userId m \<in> set r) \<and>
            rs client = OPEN)
          (activeClients st)))"

subsection \<open>The message handler\<close>

text \<open>What a handler run gives: the state after, the \<open>send\<close> calls in order, and the
  query it is suspended on, if any.\<close>

type_synonym outcome = "server_state \<times> sends \<times> pending option"

definition not_registered :: "server_state \<Rightarrow> conn \<Rightarrow> outcome" where
  "not_registered st ws = (st, [(ws, Error ''Client not registered'')], None)"

text \<open>\<open>case "register"\<close>, up to the \<open>await\<close> of the room lookup.\<close>

definition case_register :: "(json \<Rightarrow> jsnum) \<Rightarrow> server_state \<Rightarrow> conn \<Rightarrow> json \<Rightarrow> outcome" where
  "case_register conv st ws parsed =
     (case field parsed ''roomId'' of
        None \<Rightarrow> (st, [(ws, Error ''Missing roomId or userId'')], None)
      | Some room \<Rightarrow>
          if \<not> truthy (Some room) \<or> \<not> truthy (field parsed ''userId'')
          then (st, [(ws, Error ''Missing roomId or userId'')], None)
          else (st, [], Some (AwaitRoom ws room (Number_js conv (field parsed ''userId'')))))"

text \<open>\<open>case "register"\<close>, from the reply of the room lookup on, in the state of that
  moment. A rejected lookup lands in the outer \<open>catch\<close>.\<close>

definition resume_register ::
  "(conn \<Rightarrow> ws_state) \<Rightarrow> server_state \<Rightarrow> conn \<Rightarrow> json \<Rightarrow> jsnum \<Rightarrow> room_lookup \<Rightarrow> server_state \<times> sends" where
  "resume_register rs st ws room numericUserId reply =
     (case reply of
        LookupThrows \<Rightarrow> (st, [(ws, Error ''Server error'')])
      | LookupNull \<Rightarrow> (st, [(ws, Error ''Unauthorized user or room'')])
      | LookupRoom users \<Rightarrow>
          if \<not> (\<exists>u \<in> set users. strict_eq_num u numericUserId)
          then (st, [(ws, Error ''Unauthorized user or room'')])
          else
            (let st1 = st\<lparr>activeClients :=
                         map_set (activeClients st) ws \<lparr>userId = numericUserId, roomId = room\<rparr>\<rparr>;
                 members = (case map_get (roomUserMap st1) room of None \<Rightarrow> [] | Some s \<Rightarrow> s);
                 st2 = st1\<lparr>roomUserMap :=
                         map_set (roomUserMap st1) room (set_add members numericUserId)\<rparr>
             in (st2,
                 (ws, RegisterSuccess room numericUserId) #
                 broadcastToRoom rs st2 room (UserList (set_add members numericUserId)) None)))"

definition case_request_user_list :: "server_state \<Rightarrow> conn \<Rightarrow> meta option \<Rightarrow> outcome" where
  "case_request_user_list st ws clientMeta =
     (case clientMeta of
        None \<Rightarrow> not_registered st ws
      | Some m \<Rightarrow>
          (st,
           [(ws, UserList (case map_get (roomUserMap st) (roomId m) of None \<Rightarrow> [] | Some s \<Rightarrow> s))],
           None))"

text \<open>\<open>case "message"\<close>, up to the \<open>await\<close> of \<open>chat.create\<close>.\<close>

definition case_message ::
  "(json \<Rightarrow> jsnum) \<Rightarrow> server_state \<Rightarrow> conn \<Rightarrow> meta option \<Rightarrow> json \<Rightarrow> outcome" where
  "case_message conv st ws clientMeta parsed =
     (case clientMeta of
        None \<Rightarrow> not_registered st ws
      | Some m \<Rightarrow>
          (let numericUserId = Number_js conv (field parsed ''user_id'') in
           case field parsed ''roomId'' of
             None \<Rightarrow> (st, [(ws, Error ''Invalid room or user context'')], None)
           | Some room \<Rightarrow>
               if \<not> strict_eq_json room (roomId m) \<or> \<not> strict_eq_num numericUserId (userId m)
               then (st, [(ws, Error ''Invalid room or user context'')], None)
               else (st, [], Some (AwaitChat ws room numericUserId (field parsed ''text'')))))"

text \<open>\<open>case "message"\<close>, from the reply of \<open>chat.create\<close> on.\<close>

definition resume_chat ::
  "(conn \<Rightarrow> ws_state) \<Rightarrow> server_state \<Rightarrow> conn \<Rightarrow> json \<Rightarrow> chat_result \<Rightarrow> server_state \<times> sends" where
  "resume_chat rs st ws room reply =
     (case reply of
        ChatThrows \<Rightarrow> (st, [(ws, Error ''Server error'')])
      | ChatCreated chat \<Rightarrow>
          (st, (ws, MessageSent chat) # broadcastToRoom rs st room (NewMessage chat) (Some ws)))"

definition case_pointer ::
  "(conn \<Rightarrow> ws_state) \<Rightarrow> server_state \<Rightarrow> conn \<Rightarrow> meta option \<Rightarrow> json \<Rightarrow> outcome" where
  "case_pointer rs st ws clientMeta parsed =
     (case clientMeta of
        None \<Rightarrow> not_registered st ws
      | Some m \<Rightarrow>
          (case (field parsed ''x'', field parsed ''y'') of
             (Some (JNum x), Some (JNum y)) \<Rightarrow>
               (let color = (case field parsed ''color'' of
                               None \<Rightarrow> JNull
                             | Some c \<Rightarrow> if truthy (Some c) then c else JNull)
                in (st, broadcastToRoom rs st (roomId m) (Pointer x y color (userId m)) (Some ws), None))
           | _ \<Rightarrow> (st, [], None)))"

definition case_lock ::
  "(conn \<Rightarrow> ws_state) \<Rightarrow> server_state \<Rightarrow> conn \<Rightarrow> meta option \<Rightarrow> outcome" where
  "case_lock rs st ws clientMeta =
     (case clientMeta of
        None \<Rightarrow> not_registered st ws
      | Some m \<Rightarrow> (st, broadcastToRoom rs st (roomId m) (Lock (userId m)) (Some ws), None))"

definition case_unlock ::
  "(conn \<Rightarrow> ws_state) \<Rightarrow> server_state \<Rightarrow> conn \<Rightarrow> meta option \<Rightarrow> outcome" where
  "case_unlock rs st ws clientMeta =
     (case clientMeta of
        None \<Rightarrow> not_registered st ws
      | Some m \<Rightarrow> (st, broadcastToRoom rs st (roomId m) Unlock (Some ws), None))"

definition case_color ::
  "(conn \<Rightarrow> ws_state) \<Rightarrow> server_state \<Rightarrow> conn \<Rightarrow> meta option \<Rightarrow> json \<Rightarrow> outcome" where
  "case_color rs st ws clientMeta parsed =
     (case clientMeta of
        None \<Rightarrow> not_registered st ws
      | Some m \<Rightarrow>
          (case field parsed ''color'' of
             Some (JStr c) \<Rightarrow>
               (st, broadcastToRoom rs st (roomId m) (Color c (userId m)) (Some ws), None)
           | _ \<Rightarrow> (st, [], None)))"

text \<open>The document of a room as the handler reads it: \<open>roomShapes.get(roomId) || []\<close>.\<close>

definition shapes_of :: "server_state \<Rightarrow> json \<Rightarrow> jsarray" where
  "shapes_of st room = (case map_get (roomShapes st) room of None \<Rightarrow> empty_array | Some a \<Rightarrow> a)"

definition set_shapes :: "server_state \<Rightarrow> json \<Rightarrow> jsarray \<Rightarrow> server_state" where
  "set_shapes st room a = st\<lparr>roomShapes := map_set (roomShapes st) room a\<rparr>"

text \<open>
  The six drawing cases. \<open>push\<close>, the indexed assignment and \<open>splice\<close> change the array
  the map holds in place and \<open>roomShapes.set\<close> then stores it (again); a \<open>push\<close> that
  throws has changed the stored array, if there is one, and the outer \<open>catch\<close> answers.
  The outer \<open>catch\<close> also answers when the document cannot be serialised: for \<open>init\<close>
  nothing has changed by then, for \<open>draw\<close>, \<open>move\<close> and \<open>delete\<close> the document has been
  changed and stored and only the broadcast is lost. The payload of \<open>clear\<close> is the empty
  sequence and that of \<open>stream\<close> is the delta.
\<close>

definition case_shapes ::
  "(json option list \<Rightarrow> bool) \<Rightarrow> (conn \<Rightarrow> ws_state) \<Rightarrow> server_state \<Rightarrow> conn \<Rightarrow> meta option
     \<Rightarrow> string \<Rightarrow> json \<Rightarrow> outcome" where
  "case_shapes fits rs st ws clientMeta t parsed =
     (case clientMeta of
        None \<Rightarrow> not_registered st ws
      | Some m \<Rightarrow>
          (let room = roomId m; shapes = shapes_of st room in
           if t = ''init'' then
             (if stringify_throws fits (Init (elems shapes))
              then (st, [(ws, Error ''Server error'')], None)
              else (st, [(ws, Init (elems shapes))], None))
           else if t = ''clear'' then
             (let st' = set_shapes st room empty_array
              in (st', broadcastToRoom rs st' room (Sync []) None, None))
           else if t = ''draw'' then
             (case array_push shapes (field parsed ''element'') of
                Inl a \<Rightarrow>
                  ((if map_get (roomShapes st) room = None then st else set_shapes st room a),
                   [(ws, Error ''Server error'')], None)
              | Inr a \<Rightarrow>
                  (let st' = set_shapes st room a
                   in if stringify_throws fits (Sync (elems a))
                      then (st', [(ws, Error ''Server error'')], None)
                      else (st', broadcastToRoom rs st' room (Sync (elems a)) None, None)))
           else if t = ''stream'' then
             (case field parsed ''index'' of
                Some (JNum n) \<Rightarrow>
                  (let a = array_assign shapes n (field parsed ''element'');
                       st' = set_shapes st room a
                   in (st',
                       broadcastStreamToRoom rs st' room
                         (Stream (field parsed ''element'') n (field parsed ''color'') (userId m))
                         (Some ws),
                       None))
              | _ \<Rightarrow> (st, [], None))
           else if t = ''move'' then
             (case field parsed ''index'' of
                Some (JNum n) \<Rightarrow>
                  (let a = array_assign shapes n (field parsed ''element'');
                       st' = set_shapes st room a
                   in if stringify_throws fits (Sync (elems a))
                      then (st', [(ws, Error ''Server error'')], None)
                      else (st', broadcastToRoom rs st' room (Sync (elems a)) None, None))
              | _ \<Rightarrow> (st, [], None))
           else if t = ''delete'' then
             (case field parsed ''index'' of
                Some (JNum n) \<Rightarrow>
                  (let a = array_splice1 shapes n;
                       st' = set_shapes st room a
                   in if stringify_throws fits (Sync (elems a))
                      then (st', [(ws, Error ''Server error'')], None)
                      else (st', broadcastToRoom rs st' room (Sync (elems a)) None, None))
              | _ \<Rightarrow> (st, [], None))
           else (st, [], None)))"

definition case_webrtc ::
  "(json \<Rightarrow> jsnum) \<Rightarrow> (conn \<Rightarrow> ws_state) \<Rightarrow> server_state \<Rightarrow> conn \<Rightarrow> meta option \<Rightarrow> string \<Rightarrow> json
     \<Rightarrow> outcome" where
  "case_webrtc conv rs st ws clientMeta t parsed =
     (case clientMeta of
        None \<Rightarrow> not_registered st ws
      | Some m \<Rightarrow>
          if \<not> truthy (field parsed ''targetUserId'')
          then (st, [(ws, Error ''Missing targetUserId'')], None)
          else
            (case sendToUserInRoom rs (activeClients st) (roomId m)
                    (Number_js conv (field parsed ''targetUserId''))
                    (Signal t (userId m) (field parsed ''data'')) of
               (forwarded, out) \<Rightarrow>
                 (st,
                  (if forwarded then out else out @ [(ws, Error ''Target user not connected'')]),
                  None)))"

text \<open>
  \<open>ws.on("message", ...)\<close>. Reading \<open>parsed.type\<close> of \<open>null\<close> throws inside the \<open>try\<close>,
  so the outer \<open>catch\<close> answers; any other parsed value without a matching string
  \<open>type\<close> falls to \<open>default\<close>.
\<close>

definition on_message ::
  "(json option list \<Rightarrow> bool) \<Rightarrow> (json \<Rightarrow> jsnum) \<Rightarrow> (conn \<Rightarrow> ws_state) \<Rightarrow> server_state \<Rightarrow> conn
     \<Rightarrow> incoming \<Rightarrow> outcome" where
  "on_message fits conv rs st ws data =
     (case data of
        Unparsable \<Rightarrow> (st, [(ws, Error ''Invalid JSON format'')], None)
      | Parsed parsed \<Rightarrow>
          (let clientMeta = map_get (activeClients st) ws in
           if parsed = JNull then (st, [(ws, Error ''Server error'')], None)
           else
             (case field parsed ''type'' of
                Some (JStr t) \<Rightarrow>
                  if t = ''register'' then case_register conv st ws parsed
                  else if t = ''request-user-list'' then case_request_user_list st ws clientMeta
                  else if t = ''message'' then case_message conv st ws clientMeta parsed
                  else if t = ''pointer'' then case_pointer rs st ws clientMeta parsed
                  else if t = ''lock'' then case_lock rs st ws clientMeta
                  else if t = ''unlock'' then case_unlock rs st ws clientMeta
                  else if t = ''color'' then case_color rs st ws clientMeta parsed
                  else if t \<in> {''init'', ''draw'', ''stream'', ''move'', ''delete'', ''clear''}
                    then case_shapes fits rs st ws clientMeta t parsed
                  else if t \<in> {''webrtc-offer'', ''webrtc-answer'', ''webrtc-ice''}
                    then case_webrtc conv rs st ws clientMeta t parsed
                  else (st, [(ws, Error ''Unknown message type'')], None)
              | _ \<Rightarrow> (st, [(ws, Error ''Unknown message type'')], None))))"

subsection \<open>The close handler\<close>

definition on_close :: "server_state \<Rightarrow> conn \<Rightarrow> server_state" where
  "on_close st ws =
     (case map_get (activeClients st) ws of
        None \<Rightarrow> st
      | Some m \<Rightarrow>
          (let rooms =
                 (case map_get (roomUserMap st) (roomId m) of
                    None \<Rightarrow> roomUserMap st
                  | Some roomSet \<Rightarrow>
                      (let roomSet' = set_delete roomSet (userId m) in
                       if length roomSet' = 0 then map_delete (roomUserMap st) (roomId m)
                       else map_set (roomUserMap st) (roomId m) roomSet'))
           in st\<lparr>roomUserMap := rooms, activeClients := map_delete (activeClients st) ws\<rparr>))"

subsection \<open>Runs of the server\<close>

text \<open>
  The server together with its sockets: the \<open>readyState\<close> of every connection, the
  handlers suspended on the database, and every \<open>send\<close> made so far. An event is a new
  connection, a message, a reply of the database to a suspended handler, the start of a
  closing handshake, or the close event.
\<close>

record config =
  server :: server_state
  readyState :: "conn \<Rightarrow> ws_state"
  waiting :: "pending list"
  sent :: sends

datatype event =
    EvConnect conn
  | EvMessage conn incoming
  | EvRoomLookup pending room_lookup
  | EvChatCreate pending chat_result
  | EvClosing conn
  | EvClose conn

definition initial_config :: config where
  "initial_config =
     \<lparr>server = initial_state, readyState = (\<lambda>c. CLOSED), waiting = [], sent = []\<rparr>"

fun exec_event ::
  "(json option list \<Rightarrow> bool) \<Rightarrow> (json \<Rightarrow> jsnum) \<Rightarrow> config \<Rightarrow> event \<Rightarrow> config" where
  "exec_event fits conv cfg (EvConnect c) = cfg\<lparr>readyState := (readyState cfg)(c := OPEN)\<rparr>"
| "exec_event fits conv cfg (EvMessage c data) =
     (case on_message fits conv (readyState cfg) (server cfg) c data of
        (st, out, p) \<Rightarrow>
          cfg\<lparr>server := st, sent := sent cfg @ out,
              waiting := waiting cfg @ (case p of None \<Rightarrow> [] | Some q \<Rightarrow> [q])\<rparr>)"
| "exec_event fits conv cfg (EvRoomLookup p reply) =
     (if p \<notin> set (waiting cfg) then cfg
      else
        (case p of
           AwaitRoom ws room uid \<Rightarrow>
             (case resume_register (readyState cfg) (server cfg) ws room uid reply of
                (st, out) \<Rightarrow>
                  cfg\<lparr>server := st, sent := sent cfg @ out, waiting := remove1 p (waiting cfg)\<rparr>)
         | _ \<Rightarrow> cfg))"
| "exec_event fits conv cfg (EvChatCreate p reply) =
     (if p \<notin> set (waiting cfg) then cfg
      else
        (case p of
           AwaitChat ws room uid text \<Rightarrow>
             (case resume_chat (readyState cfg) (server cfg) ws room reply of
                (st, out) \<Rightarrow>
                  cfg\<lparr>server := st, sent := sent cfg @ out, waiting := remove1 p (waiting cfg)\<rparr>)
         | _ \<Rightarrow> cfg))"
| "exec_event fits conv cfg (EvClosing c) = cfg\<lparr>readyState := (readyState cfg)(c := CLOSING)\<rparr>"
| "exec_event fits conv cfg (EvClose c) =
     cfg\<lparr>readyState := (readyState cfg)(c := CLOSED), server := on_close (server cfg) c\<rparr>"

definition run ::
  "(json option list \<Rightarrow> bool) \<Rightarrow> (json \<Rightarrow> jsnum) \<Rightarrow> event list \<Rightarrow> config" where
  "run fits conv evs = foldl (exec_event fits conv) initial_config evs"

subsection \<open>Notions used in the statements\<close>

text \<open>A connection passes the guard of the two broadcast loops for a room: it is in
  \<open>activeClients\<close> with that room, its user is in the room's entry of \<open>roomUserMap\<close>, and
  its socket is open.\<close>

definition room_member :: "(conn \<Rightarrow> ws_state) \<Rightarrow> server_state \<Rightarrow> json \<Rightarrow> conn \<Rightarrow> bool" where
  "room_member rs st room c =
     (case map_get (activeClients st) c of
        None \<Rightarrow> False
      | Some m \<Rightarrow>
          strict_eq_json (roomId m) room \<and>
          (case map_get (roomUserMap st) room of None \<Rightarrow> False | Some r \<Rightarrow> userId m \<in> set r) \<and>
          rs c = OPEN)"

subsection \<open>Concrete messages, runs and states\<close>

text \<open>
  The examples below carry numeric identifiers only, so \<open>Number\<close> never has to convert a
  string; \<open>conv_unused\<close> stands in for that conversion. The database lists the users 1
  and 2 for every room it is asked about.
\<close>

definition conv_unused :: "json \<Rightarrow> jsnum" where
  "conv_unused v = NaN"

text \<open>The engine of the examples. Every slot of a document takes at least two characters
  of the text, so an engine whose longest string has \<open>2^30\<close> characters or fewer serialises
  no document of \<open>2^29\<close> slots or more. The examples ask only about documents of two
  slots and about one of more than \<open>2^29\<close> slots.\<close>

definition engine_fits :: "json option list \<Rightarrow> bool" where
  "engine_fits d = (length d < 536870912)"

definition all_open :: "conn \<Rightarrow> ws_state" where
  "all_open c = OPEN"

definition line :: json where
  "line = JObj [(''shape'', JStr ''line'')]"

definition circle :: json where
  "circle = JObj [(''shape'', JStr ''circle'')]"

definition register_obj :: "json \<Rightarrow> jsnum \<Rightarrow> json" where
  "register_obj room uid =
     JObj [(''type'', JStr ''register''), (''roomId'', room), (''userId'', JNum uid)]"

definition register_msg :: "json \<Rightarrow> jsnum \<Rightarrow> incoming" where
  "register_msg room uid = Parsed (register_obj room uid)"

definition register_ok :: "conn \<Rightarrow> json \<Rightarrow> jsnum \<Rightarrow> event list" where
  "register_ok c room uid =
     [EvMessage c (register_msg room uid),
      EvRoomLookup (AwaitRoom c room uid) (LookupRoom [Fin 1, Fin 2])]"

definition draw_msg :: "json \<Rightarrow> json" where
  "draw_msg el = JObj [(''type'', JStr ''draw''), (''element'', el)]"

definition delete_msg :: "jsnum \<Rightarrow> json" where
  "delete_msg n = JObj [(''type'', JStr ''delete''), (''index'', JNum n)]"

definition delete_text_index :: json where
  "delete_text_index = JObj [(''type'', JStr ''delete''), (''index'', JStr ''0'')]"

definition init_msg :: json where
  "init_msg = JObj [(''type'', JStr ''init'')]"

definition chat_obj :: json where
  "chat_obj =
     JObj [(''type'', JStr ''message''), (''roomId'', JStr ''r1''), (''user_id'', JNum (Fin 1)),
           (''text'', JStr ''hello'')]"

definition stream_at_zero :: json where
  "stream_at_zero = JObj [(''type'', JStr ''stream''), (''index'', JNum (Fin 0)), (''element'', line)]"

definition stream_at_two :: json where
  "stream_at_two = JObj [(''type'', JStr ''stream''), (''index'', JNum (Fin 2)), (''element'', line)]"



text \<open>One connection registered as user 1 in room r1.\<close>

definition solo :: "event list" where
  "solo = [EvConnect 1] @ register_ok 1 (JStr ''r1'') (Fin 1)"

text \<open>Two connections in room r1, as users 1 and 2.\<close>

definition pair :: "event list" where
  "pair = solo @ [EvConnect 2] @ register_ok 2 (JStr ''r1'') (Fin 2)"

text \<open>Two connections of the same user 1 in room r1.\<close>

definition two_tabs :: "event list" where
  "two_tabs =
     [EvConnect 1] @ register_ok 1 (JStr ''r1'') (Fin 1) @
     [EvConnect 2] @ register_ok 2 (JStr ''r1'') (Fin 1)"

text \<open>The same with a third connection, of user 2, after which the first one closes.\<close>

definition lone_tab :: "event list" where
  "lone_tab = two_tabs @ [EvConnect 3] @ register_ok 3 (JStr ''r1'') (Fin 2) @ [EvClose 1]"

text \<open>One connection that has drawn two shapes.\<close>

definition two_shapes :: "event list" where
  "two_shapes = solo @ [EvMessage 1 (Parsed (draw_msg line)), EvMessage 1 (Parsed (draw_msg circle))]"

definition solo_state :: server_state where
  "solo_state =
     \<lparr>activeClients = [(1, \<lparr>userId = Fin 1, roomId = JStr ''r1''\<rparr>)],
      roomUserMap = [(JStr ''r1'', [Fin 1])],
      roomShapes = []\<rparr>"

definition pair_state :: server_state where
  "pair_state =
     \<lparr>activeClients = [(1, \<lparr>userId = Fin 1, roomId = JStr ''r1''\<rparr>),
                       (2, \<lparr>userId = Fin 2, roomId = JStr ''r1''\<rparr>)],
      roomUserMap = [(JStr ''r1'', [Fin 1, Fin 2])],
      roomShapes = []\<rparr>"

definition one_shape_state :: server_state where
  "one_shape_state =
     \<lparr>activeClients = [(1, \<lparr>userId = Fin 1, roomId = JStr ''r1''\<rparr>)],
      roomUserMap = [(JStr ''r1'', [Fin 1])],
      roomShapes = [(JStr ''r1'', \<lparr>elems = [Some line], props = []\<rparr>)]\<rparr>"

text \<open>One connection that has streamed a shape at index 600000000 into the empty
  document, which then has 600000001 slots, all but the last one holes.\<close>

definition stream_at_max :: json where
  "stream_at_max =
     JObj [(''type'', JStr ''stream''), (''index'', JNum (Fin 600000000)), (''element'', line)]"

definition huge_state :: server_state where
  "huge_state =
     \<lparr>activeClients = [(1, \<lparr>userId = Fin 1, roomId = JStr ''r1''\<rparr>)],
      roomUserMap = [(JStr ''r1'', [Fin 1])],
      roomShapes = [(JStr ''r1'', \<lparr>elems = replicate 600000000 None @ [Some line], props = []\<rparr>)]\<rparr>"

section \<open>Auxiliary facts\<close>

lemmas scenario_defs =
  run_def initial_config_def initial_state_def solo_def pair_def two_tabs_def lone_tab_def two_shapes_def
  register_ok_def register_msg_def register_obj_def draw_msg_def delete_msg_def engine_fits_def

lemmas handler_defs =
  on_message_def case_register_def resume_register_def case_shapes_def on_close_def
  broadcastToRoom_def broadcastStreamToRoom_def shapes_of_def set_shapes_def
  map_get_def map_delete_def set_add_def set_delete_def strict_eq_num_def
  array_push_def array_assign_def array_splice1_def splice_start_def is_array_index_def
  empty_array_def serialisable_def stringify_throws_def Let_def

subsection \<open>The example states are reached\<close>

lemma solo_reaches: "server (run engine_fits conv_unused solo) = solo_state"
  by (simp add: scenario_defs handler_defs solo_state_def)

lemma pair_reaches: "server (run engine_fits conv_unused pair) = pair_state"
  by (simp add: scenario_defs handler_defs pair_state_def)

lemma one_shape_reaches:
  "server (run engine_fits conv_unused (solo @ [EvMessage 1 (Parsed (draw_msg line))])) = one_shape_state"
  by (simp add: scenario_defs handler_defs one_shape_state_def)

lemma huge_reaches:
  "server (run engine_fits conv_unused (solo @ [EvMessage 1 (Parsed stream_at_max)])) = huge_state"
  by (simp add: scenario_defs handler_defs huge_state_def stream_at_max_def)

subsection \<open>Maps, broadcasts and arrays\<close>

lemma case_register_clients: "activeClients (fst (case_register conv st ws parsed)) = activeClients st"
  by (simp add: case_register_def split: option.splits)

lemma case_request_user_list_clients:
  "activeClients (fst (case_request_user_list st ws cm)) = activeClients st"
  by (simp add: case_request_user_list_def not_registered_def split: option.splits)

lemma case_message_clients: "activeClients (fst (case_message conv st ws cm parsed)) = activeClients st"
  by (simp add: case_message_def not_registered_def Let_def split: option.splits)

lemma case_pointer_clients: "activeClients (fst (case_pointer rs st ws cm parsed)) = activeClients st"
  by (simp add: case_pointer_def not_registered_def Let_def split: option.splits json.splits)

lemma case_lock_clients: "activeClients (fst (case_lock rs st ws cm)) = activeClients st"
  by (simp add: case_lock_def not_registered_def split: option.splits)

lemma case_unlock_clients: "activeClients (fst (case_unlock rs st ws cm)) = activeClients st"
  by (simp add: case_unlock_def not_registered_def split: option.splits)

lemma case_color_clients: "activeClients (fst (case_color rs st ws cm parsed)) = activeClients st"
  by (simp add: case_color_def not_registered_def split: option.splits json.splits)

lemma case_shapes_clients: "activeClients (fst (case_shapes fits rs st ws cm t parsed)) = activeClients st"
  by (simp add: case_shapes_def not_registered_def set_shapes_def Let_def
      split: option.splits json.splits sum.splits)

lemma case_webrtc_clients: "activeClients (fst (case_webrtc conv rs st ws cm t parsed)) = activeClients st"
  by (simp add: case_webrtc_def not_registered_def split: option.splits prod.splits)

lemma on_message_clients: "activeClients (fst (on_message fits conv rs st ws data)) = activeClients st"
  unfolding on_message_def Let_def
  by (simp add: case_register_clients case_request_user_list_clients case_message_clients
      case_pointer_clients case_lock_clients case_unlock_clients case_color_clients
      case_shapes_clients case_webrtc_clients
      split: incoming.splits option.splits json.splits del: insert_iff)

lemma map_get_map_set: "map_get (map_set m k v) k' = (if k' = k then Some v else map_get m k')"
  by (induction m) (auto simp: map_get_def)

lemma broadcastStream_eq:
  "broadcastStreamToRoom rs st room payload sender = broadcastToRoom rs st room payload sender"
  by (simp add: broadcastStreamToRoom_def broadcastToRoom_def)

lemma broadcast_set_shapes:
  "broadcastToRoom rs (set_shapes st r a) room payload ex = broadcastToRoom rs st room payload ex"
  by (simp add: broadcastToRoom_def set_shapes_def)

lemma room_member_set_shapes: "room_member rs (set_shapes st r a) room c = room_member rs st room c"
  by (simp add: room_member_def set_shapes_def split: option.splits)

lemma shapes_of_set_shapes: "shapes_of (set_shapes st r a) r = a"
  by (simp add: shapes_of_def set_shapes_def map_get_map_set)

lemma clients_set_shapes: "activeClients (set_shapes st r a) = activeClients st"
  by (simp add: set_shapes_def)

lemma room_member_broadcast:
  assumes "room_member rs st room c" and "Some c \<noteq> ex"
  shows "(c, payload) \<in> set (broadcastToRoom rs st room payload ex)"
proof -
  from assms(1) obtain m where m: "map_of (activeClients st) c = Some m"
    and g: "strict_eq_json (roomId m) room"
       "(case map_get (roomUserMap st) room of None \<Rightarrow> False | Some r \<Rightarrow> userId m \<in> set r)"
       "rs c = OPEN"
    by (auto simp: room_member_def map_get_def split: option.splits)
  from m have "(c, m) \<in> set (activeClients st)" by (rule map_of_SomeD)
  with g assms(2) show ?thesis
    by (force simp: broadcastToRoom_def)
qed

lemma broadcast_sound:
  "(c, x) \<in> set (broadcastToRoom rs st room payload ex) \<Longrightarrow> x = payload \<and> Some c \<noteq> ex \<and> rs c = OPEN"
  by (auto simp: broadcastToRoom_def)


lemma is_array_index_of_nat: "i < 4294967295 \<Longrightarrow> is_array_index (Fin (of_nat i))"
proof -
  assume "i < 4294967295"
  then have "(of_nat i :: rat) < of_nat 4294967295"
    by (simp only: of_nat_less_iff)
  then show ?thesis
    by (simp add: is_array_index_def)
qed

lemma array_assign_grow:
  assumes "length (elems a) \<le> i" and "i < 4294967295"
  shows "elems (array_assign a (Fin (of_nat i)) v) = elems a @ replicate (i - length (elems a)) None @ [v]"
  using assms by (simp add: array_assign_def is_array_index_of_nat Let_def)

lemma array_assign_negative: "q < 0 \<Longrightarrow> elems (array_assign a (Fin q) v) = elems a"
  by (simp add: array_assign_def is_array_index_def)

lemma splice_start_beyond: "of_nat len \<le> q \<Longrightarrow> splice_start (Fin q) len = len"
proof -
  assume a: "of_nat len \<le> q"
  then have q: "0 \<le> q" by (meson of_nat_0_le_iff order_trans)
  from a have "int len \<le> \<lfloor>q\<rfloor>" by (simp add: le_floor_iff)
  then show ?thesis using q by (simp add: splice_start_def Let_def)
qed

lemma splice_start_zero: "0 \<le> q \<Longrightarrow> q < 1 \<Longrightarrow> splice_start (Fin q) len = 0"
proof -
  assume "0 \<le> q" "q < 1"
  then have "\<lfloor>q\<rfloor> = 0" by (simp add: floor_eq_iff)
  then show ?thesis using \<open>0 \<le> q\<close> by (simp add: splice_start_def)
qed

lemma splice_start_empty: "splice_start n 0 = 0"
  by (cases n) (simp_all add: splice_start_def Let_def)

lemma array_splice1_at_end: "splice_start n (length (elems a)) = length (elems a) \<Longrightarrow> array_splice1 a n = a"
  by (simp add: array_splice1_def Let_def)

lemma array_splice1_empty: "elems a = [] \<Longrightarrow> array_splice1 a n = a"
  by (simp add: array_splice1_def Let_def)

lemma array_splice1_single: "elems a = [x] \<Longrightarrow> splice_start n 1 = 0 \<Longrightarrow> elems (array_splice1 a n) = []"
  by (simp add: array_splice1_def Let_def)

lemma on_message_shapes:
  assumes "map_get (activeClients st) ws = Some m"
    and "field parsed ''type'' = Some (JStr t)"
    and "t \<in> {''init'', ''draw'', ''stream'', ''move'', ''delete'', ''clear''}"
  shows "on_message fits conv rs st ws (Parsed parsed) = case_shapes fits rs st ws (Some m) t parsed"
proof -
  have "parsed \<noteq> JNull" using assms(2) by auto
  then show ?thesis
    using assms by (auto simp: on_message_def)
qed

section \<open>Properties\<close>

subsection \<open>Presence and the connections behind it\<close>

text \<open>
  C1. The presence set of a room should be the set of users of the open, registered
  connections of that room; a user with two connections stays present until the last one
  closes. The close handler deletes the user from the room's set without looking for
  other connections of the same user: after connections 1 and 2 have both registered as
  user 1 in room r1 and connection 1 has closed, connection 2 is still open and still
  registered as user 1 in r1, while \<open>roomUserMap\<close> has no entry for r1 any more.
\<close>

theorem close_drops_user_with_open_tab:
  "readyState (run engine_fits conv_unused (two_tabs @ [EvClose 1])) 2 = OPEN \<and>
   map_get (activeClients (server (run engine_fits conv_unused (two_tabs @ [EvClose 1])))) 2
     = Some \<lparr>userId = Fin 1, roomId = JStr ''r1''\<rparr> \<and>
   map_get (roomUserMap (server (run engine_fits conv_unused (two_tabs @ [EvClose 1])))) (JStr ''r1'') = None"
  by (simp add: scenario_defs handler_defs)

subsection \<open>What changes the identity of a connection\<close>

text \<open>
  C2, as the code has it. The \<open>(userId, roomId)\<close> attached to a connection is changed by
  one thing only, a \<open>register\<close> that the room lookup accepts: no run of the message handler
  up to its \<open>await\<close> and no continuation of a chat message changes \<open>activeClients\<close>, and
  the continuation of a \<open>register\<close> replaces the entry of its own connection exactly when
  the lookup returns a room that lists the user, whether or not the connection was
  registered before; every other entry stays as it was.
\<close>

theorem meta_changed_only_by_accepted_register:
  "activeClients (fst (on_message fits conv rs st ws data)) = activeClients st \<and>
   activeClients (fst (resume_chat rs st ws room creply)) = activeClients st \<and>
   map_get (activeClients (fst (resume_register rs st ws room uid reply))) c =
     (if c = ws \<and> (\<exists>users. reply = LookupRoom users \<and> (\<exists>u \<in> set users. strict_eq_num u uid))
      then Some \<lparr>userId = uid, roomId = room\<rparr>
      else map_get (activeClients st) c)"
proof (intro conjI)
  show "activeClients (fst (on_message fits conv rs st ws data)) = activeClients st"
    by (rule on_message_clients)
  show "activeClients (fst (resume_chat rs st ws room creply)) = activeClients st"
    by (simp add: resume_chat_def split: chat_result.splits)
  show "map_get (activeClients (fst (resume_register rs st ws room uid reply))) c =
     (if c = ws \<and> (\<exists>users. reply = LookupRoom users \<and> (\<exists>u \<in> set users. strict_eq_num u uid))
      then Some \<lparr>userId = uid, roomId = room\<rparr>
      else map_get (activeClients st) c)"
    by (cases reply) (auto simp: resume_register_def Let_def map_get_map_set)
qed

text \<open>C2 at an input: connection 1, registered as user 1 in r1, registers again as user 2
  in r2 and the lookup accepts.\<close>

theorem meta_changed_only_by_accepted_register_witness:
  "map_get (activeClients (fst (resume_register all_open solo_state 1 (JStr ''r2'') (Fin 2)
      (LookupRoom [Fin 1, Fin 2])))) 1 = Some \<lparr>userId = Fin 2, roomId = JStr ''r2''\<rparr>"
  using meta_changed_only_by_accepted_register
    [where rs = all_open and st = solo_state and ws = 1 and room = "JStr ''r2''" and uid = "Fin 2"
       and reply = "LookupRoom [Fin 1, Fin 2]" and c = 1]
  by (simp add: strict_eq_num_def)

text \<open>C2 as stated (the identity is immutable once set) fails: after the second
  \<open>register\<close> the connection carries the new identifiers.\<close>

theorem rejoin_replaces_meta:
  "map_get (activeClients (server (run engine_fits conv_unused solo))) 1
     = Some \<lparr>userId = Fin 1, roomId = JStr ''r1''\<rparr> \<and>
   map_get (activeClients (server (run engine_fits conv_unused (solo @ register_ok 1 (JStr ''r2'') (Fin 2))))) 1
     = Some \<lparr>userId = Fin 2, roomId = JStr ''r2''\<rparr>"
  by (simp add: scenario_defs handler_defs)

subsection \<open>Stream with an index outside the document\<close>

text \<open>
  C3, as the code has it. A \<open>stream\<close> message with a numeric index from a registered
  connection is never rejected. The handler suspends on nothing; everything it sends is the
  delta, to connections other than the sender, and every other connection that passes the
  broadcast guard of the room gets it; the document becomes the result of the assignment
  \<open>shapes[index] = element\<close>. In particular an integer index at or beyond the length (and
  below \<open>2^32 - 1\<close>) extends the document with holes up to the index and puts the element
  there, and a negative index leaves the elements as they were.
\<close>

theorem stream_never_rejected:
  assumes "map_get (activeClients st) ws = Some m"
    and "field parsed ''type'' = Some (JStr ''stream'')"
    and "field parsed ''index'' = Some (JNum n)"
    and "on_message fits conv rs st ws (Parsed parsed) = (st', out, p)"
  shows "p = None \<and>
    (\<forall>c x. (c, x) \<in> set out \<longrightarrow>
        c \<noteq> ws \<and> x = Stream (field parsed ''element'') n (field parsed ''color'') (userId m)) \<and>
    (\<forall>c. c \<noteq> ws \<and> room_member rs st (roomId m) c \<longrightarrow>
        (c, Stream (field parsed ''element'') n (field parsed ''color'') (userId m)) \<in> set out) \<and>
    shapes_of st' (roomId m) = array_assign (shapes_of st (roomId m)) n (field parsed ''element'') \<and>
    (\<forall>i. n = Fin (of_nat i) \<and> length (elems (shapes_of st (roomId m))) \<le> i \<and> i < 4294967295 \<longrightarrow>
        elems (shapes_of st' (roomId m)) =
          elems (shapes_of st (roomId m)) @
          replicate (i - length (elems (shapes_of st (roomId m)))) None @ [field parsed ''element'']) \<and>
    (\<forall>q. n = Fin q \<and> q < 0 \<longrightarrow> elems (shapes_of st' (roomId m)) = elems (shapes_of st (roomId m)))"
proof -
  have "case_shapes fits rs st ws (Some m) ''stream'' parsed = (st', out, p)"
    using on_message_shapes [OF assms(1,2)] assms(4) by simp
  then have st': "st' = set_shapes st (roomId m)
                    (array_assign (shapes_of st (roomId m)) n (field parsed ''element''))"
    and out: "out = broadcastToRoom rs st (roomId m)
                (Stream (field parsed ''element'') n (field parsed ''color'') (userId m)) (Some ws)"
    and p: "p = None"
    using assms(3) by (auto simp: case_shapes_def Let_def broadcastStream_eq broadcast_set_shapes)
  have sh: "shapes_of st' (roomId m) = array_assign (shapes_of st (roomId m)) n (field parsed ''element'')"
    by (simp add: st' shapes_of_set_shapes)
  have a: "\<forall>c x. (c, x) \<in> set out \<longrightarrow>
        c \<noteq> ws \<and> x = Stream (field parsed ''element'') n (field parsed ''color'') (userId m)"
    unfolding out using broadcast_sound by blast
  have b: "\<forall>c. c \<noteq> ws \<and> room_member rs st (roomId m) c \<longrightarrow>
        (c, Stream (field parsed ''element'') n (field parsed ''color'') (userId m)) \<in> set out"
    unfolding out by (simp add: room_member_broadcast)
  have c: "\<forall>i. n = Fin (of_nat i) \<and> length (elems (shapes_of st (roomId m))) \<le> i \<and> i < 4294967295 \<longrightarrow>
        elems (shapes_of st' (roomId m)) =
          elems (shapes_of st (roomId m)) @
          replicate (i - length (elems (shapes_of st (roomId m)))) None @ [field parsed ''element'']"
    unfolding sh by (auto simp: array_assign_grow)
  have d: "\<forall>q. n = Fin q \<and> q < 0 \<longrightarrow> elems (shapes_of st' (roomId m)) = elems (shapes_of st (roomId m))"
    unfolding sh by (auto simp: array_assign_negative)
  show ?thesis
    using p a b sh c d by (intro conjI) assumption+
qed

text \<open>C3 at an input: user 1 streams at index 2 into the empty document of r1.\<close>

theorem stream_never_rejected_witness:
  "on_message engine_fits conv_unused all_open pair_state 1 (Parsed stream_at_two)
     = (set_shapes pair_state (JStr ''r1'') \<lparr>elems = [None, None, Some line], props = []\<rparr>,
        [(2, Stream (Some line) (Fin 2) None (Fin 1))], None) \<and>
   shapes_of (set_shapes pair_state (JStr ''r1'') \<lparr>elems = [None, None, Some line], props = []\<rparr>)
       (JStr ''r1'')
     = array_assign (shapes_of pair_state (JStr ''r1'')) (Fin 2) (Some line)"
proof -
  have reg: "map_get (activeClients pair_state) 1 = Some \<lparr>userId = Fin 1, roomId = JStr ''r1''\<rparr>"
    by (simp add: pair_state_def map_get_def)
  have ty: "field stream_at_two ''type'' = Some (JStr ''stream'')"
    and idx: "field stream_at_two ''index'' = Some (JNum (Fin 2))"
    and el: "field stream_at_two ''element'' = Some line"
    by (simp_all add: stream_at_two_def)
  have res: "on_message engine_fits conv_unused all_open pair_state 1 (Parsed stream_at_two)
     = (set_shapes pair_state (JStr ''r1'') \<lparr>elems = [None, None, Some line], props = []\<rparr>,
        [(2, Stream (Some line) (Fin 2) None (Fin 1))], None)"
    by (simp add: handler_defs stream_at_two_def pair_state_def all_open_def numeral_eq_Suc)
  from stream_never_rejected [OF reg ty idx res] el
  have "shapes_of (set_shapes pair_state (JStr ''r1'') \<lparr>elems = [None, None, Some line], props = []\<rparr>)
       (JStr ''r1'')
     = array_assign (shapes_of pair_state (JStr ''r1'')) (Fin 2) (Some line)"
    by simp
  with res show ?thesis by (rule conjI)
qed

text \<open>C3 as stated (an index beyond the length is rejected, with no mutation and no
  broadcast) fails: on the empty document of r1 a stream at index 2 from connection 1
  sends no error, stores the element behind two holes and sends the delta to
  connection 2.\<close>

theorem stream_past_end_accepted:
  "elems (shapes_of (server (run engine_fits conv_unused pair)) (JStr ''r1'')) = [] \<and>
   on_message engine_fits conv_unused (readyState (run engine_fits conv_unused pair)) (server (run engine_fits conv_unused pair)) 1
       (Parsed stream_at_two)
     = (set_shapes (server (run engine_fits conv_unused pair)) (JStr ''r1'')
          \<lparr>elems = [None, None, Some line], props = []\<rparr>,
        [(2, Stream (Some line) (Fin 2) None (Fin 1))], None)"
  by (simp add: scenario_defs handler_defs stream_at_two_def numeral_eq_Suc)

subsection \<open>Delete with an index outside the document\<close>

text \<open>
  C4, as the code has it. For a registered connection and any numeric index, \<open>delete\<close>
  stores the result of \<open>splice(index, 1)\<close> and suspends on nothing. When the resulting
  document can be serialised, it sends no error: everything it sends is the \<open>sync\<close> of the
  resulting elements, and every connection that passes the broadcast guard of the room
  gets it. When the resulting document cannot be serialised, the sender gets
  \<open>Server error\<close> and nothing else is sent. The document is left as it was when the index
  is at or beyond its length, or when it is empty. On a document of length 1, a \<open>delete\<close>
  at index 0 (any number from 0 up to, not including, 1) empties it and sends only the
  \<open>sync\<close> of the empty sequence, and the same \<open>delete\<close> again leaves it empty, again
  sending only the \<open>sync\<close> of the empty sequence.
\<close>

theorem delete_numeric_index:
  assumes "map_get (activeClients st) ws = Some m"
    and "field parsed ''type'' = Some (JStr ''delete'')"
    and "field parsed ''index'' = Some (JNum n)"
    and "on_message fits conv rs st ws (Parsed parsed) = (st', out, p)"
  shows
   "p = None \<and>
    shapes_of st' (roomId m) = array_splice1 (shapes_of st (roomId m)) n \<and>
    (serialisable fits (elems (shapes_of st' (roomId m))) \<longrightarrow>
       (\<forall>c x. (c, x) \<in> set out \<longrightarrow> x = Sync (elems (shapes_of st' (roomId m)))) \<and>
       (\<forall>c. room_member rs st (roomId m) c \<longrightarrow>
            (c, Sync (elems (shapes_of st' (roomId m)))) \<in> set out)) \<and>
    (\<not> serialisable fits (elems (shapes_of st' (roomId m))) \<longrightarrow>
       out = [(ws, Error ''Server error'')]) \<and>
    (n = PosInf \<or> (\<exists>q. n = Fin q \<and> of_nat (length (elems (shapes_of st (roomId m)))) \<le> q) \<or>
     elems (shapes_of st (roomId m)) = [] \<longrightarrow>
       shapes_of st' (roomId m) = shapes_of st (roomId m)) \<and>
    ((\<exists>q. n = Fin q \<and> 0 \<le> q \<and> q < 1) \<and> length (elems (shapes_of st (roomId m))) = 1 \<longrightarrow>
       elems (shapes_of st' (roomId m)) = [] \<and>
       (\<forall>c x. (c, x) \<in> set out \<longrightarrow> x = Sync []) \<and>
       (\<forall>c. room_member rs st (roomId m) c \<longrightarrow> (c, Sync []) \<in> set out) \<and>
       (\<forall>rs2 st2 out2 p2. on_message fits conv rs2 st' ws (Parsed parsed) = (st2, out2, p2) \<longrightarrow>
          elems (shapes_of st2 (roomId m)) = [] \<and> p2 = None \<and>
          (\<forall>c x. (c, x) \<in> set out2 \<longrightarrow> x = Sync []) \<and>
          (\<forall>c. room_member rs2 st' (roomId m) c \<longrightarrow> (c, Sync []) \<in> set out2)))"
proof -
  have step: "p2 = None \<and>
              shapes_of st2 (roomId m) = array_splice1 (shapes_of s (roomId m)) n \<and>
              activeClients st2 = activeClients s \<and>
              (serialisable fits (elems (shapes_of st2 (roomId m))) \<longrightarrow>
                 out2 = broadcastToRoom rs2 s (roomId m) (Sync (elems (shapes_of st2 (roomId m)))) None) \<and>
              (\<not> serialisable fits (elems (shapes_of st2 (roomId m))) \<longrightarrow>
                 out2 = [(ws, Error ''Server error'')])"
    if "map_get (activeClients s) ws = Some m"
      and "on_message fits conv rs2 s ws (Parsed parsed) = (st2, out2, p2)"
    for s rs2 st2 out2 p2
  proof -
    have cs: "case_shapes fits rs2 s ws (Some m) ''delete'' parsed = (st2, out2, p2)"
      using on_message_shapes [OF that(1) assms(2)] that(2) by simp
    have st2: "st2 = set_shapes s (roomId m) (array_splice1 (shapes_of s (roomId m)) n)"
      and p2: "p2 = None"
      using cs assms(3) by (auto simp: case_shapes_def Let_def split: if_splits)
    have sh: "shapes_of st2 (roomId m) = array_splice1 (shapes_of s (roomId m)) n"
      by (simp add: st2 shapes_of_set_shapes)
    have ok: "out2 = broadcastToRoom rs2 s (roomId m) (Sync (elems (shapes_of st2 (roomId m)))) None"
      if "serialisable fits (elems (shapes_of st2 (roomId m)))"
      using cs assms(3) that
      by (auto simp: case_shapes_def Let_def sh stringify_throws_def broadcast_set_shapes
          split: if_splits)
    have bad: "out2 = [(ws, Error ''Server error'')]"
      if "\<not> serialisable fits (elems (shapes_of st2 (roomId m)))"
      using cs assms(3) that
      by (auto simp: case_shapes_def Let_def sh stringify_throws_def split: if_splits)
    have cl: "activeClients st2 = activeClients s"
      by (simp add: st2 clients_set_shapes)
    show ?thesis
      using p2 sh cl ok bad by blast
  qed
  have synced: "(\<forall>c x. (c, x) \<in> set o2 \<longrightarrow> x = Sync d) \<and>
                (\<forall>c. room_member r2 s (roomId m) c \<longrightarrow> (c, Sync d) \<in> set o2)"
    if "o2 = broadcastToRoom r2 s (roomId m) (Sync d) None" for o2 r2 s d
  proof (rule conjI)
    show "\<forall>c x. (c, x) \<in> set o2 \<longrightarrow> x = Sync d"
      unfolding that using broadcast_sound by blast
    show "\<forall>c. room_member r2 s (roomId m) c \<longrightarrow> (c, Sync d) \<in> set o2"
      unfolding that by (simp add: room_member_broadcast)
  qed
  note first = step [OF assms(1,4)]
  have p: "p = None"
    and sh: "shapes_of st' (roomId m) = array_splice1 (shapes_of st (roomId m)) n"
    and reg': "map_get (activeClients st') ws = Some m"
    using first assms(1) by simp_all
  have ok: "(\<forall>c x. (c, x) \<in> set out \<longrightarrow> x = Sync (elems (shapes_of st' (roomId m)))) \<and>
       (\<forall>c. room_member rs st (roomId m) c \<longrightarrow>
            (c, Sync (elems (shapes_of st' (roomId m)))) \<in> set out)"
    if "serialisable fits (elems (shapes_of st' (roomId m)))"
    using first that by (intro synced) simp
  have bad: "out = [(ws, Error ''Server error'')]"
    if "\<not> serialisable fits (elems (shapes_of st' (roomId m)))"
    using first that by simp
  have same: "shapes_of st' (roomId m) = shapes_of st (roomId m)"
    if h: "n = PosInf \<or> (\<exists>q. n = Fin q \<and> of_nat (length (elems (shapes_of st (roomId m)))) \<le> q) \<or>
           elems (shapes_of st (roomId m)) = []"
  proof -
    have "splice_start n (length (elems (shapes_of st (roomId m)))) = length (elems (shapes_of st (roomId m)))"
      using h by (auto simp: splice_start_beyond splice_start_empty) (simp add: splice_start_def)
    then have "array_splice1 (shapes_of st (roomId m)) n = shapes_of st (roomId m)"
      by (rule array_splice1_at_end)
    with sh show ?thesis by simp
  qed
  have twice: "elems (shapes_of st' (roomId m)) = [] \<and>
       (\<forall>c x. (c, x) \<in> set out \<longrightarrow> x = Sync []) \<and>
       (\<forall>c. room_member rs st (roomId m) c \<longrightarrow> (c, Sync []) \<in> set out) \<and>
       (\<forall>rs2 st2 out2 p2. on_message fits conv rs2 st' ws (Parsed parsed) = (st2, out2, p2) \<longrightarrow>
          elems (shapes_of st2 (roomId m)) = [] \<and> p2 = None \<and>
          (\<forall>c x. (c, x) \<in> set out2 \<longrightarrow> x = Sync []) \<and>
          (\<forall>c. room_member rs2 st' (roomId m) c \<longrightarrow> (c, Sync []) \<in> set out2))"
    if h: "(\<exists>q. n = Fin q \<and> 0 \<le> q \<and> q < 1) \<and> length (elems (shapes_of st (roomId m))) = 1"
  proof -
    from h obtain x where x: "elems (shapes_of st (roomId m)) = [x]"
      by (cases "elems (shapes_of st (roomId m))") auto
    from h have "splice_start n 1 = 0" by (auto simp: splice_start_zero)
    with x have e: "elems (shapes_of st' (roomId m)) = []"
      unfolding sh by (rule array_splice1_single)
    have fit: "serialisable fits []"
      by (simp add: serialisable_def)
    have o1: "(\<forall>c x. (c, x) \<in> set out \<longrightarrow> x = Sync []) \<and>
              (\<forall>c. room_member rs st (roomId m) c \<longrightarrow> (c, Sync []) \<in> set out)"
      using ok fit e by simp
    have again: "elems (shapes_of st2 (roomId m)) = [] \<and> p2 = None \<and>
          (\<forall>c x. (c, x) \<in> set out2 \<longrightarrow> x = Sync []) \<and>
          (\<forall>c. room_member rs2 st' (roomId m) c \<longrightarrow> (c, Sync []) \<in> set out2)"
      if r: "on_message fits conv rs2 st' ws (Parsed parsed) = (st2, out2, p2)" for rs2 st2 out2 p2
    proof -
      note second = step [OF reg' r]
      have "array_splice1 (shapes_of st' (roomId m)) n = shapes_of st' (roomId m)"
        using e by (rule array_splice1_empty)
      then have e2: "elems (shapes_of st2 (roomId m)) = []"
        using second e by simp
      have "out2 = broadcastToRoom rs2 st' (roomId m) (Sync []) None"
        using second e2 fit by simp
      then have "(\<forall>c x. (c, x) \<in> set out2 \<longrightarrow> x = Sync []) \<and>
                 (\<forall>c. room_member rs2 st' (roomId m) c \<longrightarrow> (c, Sync []) \<in> set out2)"
        by (rule synced)
      with e2 second show ?thesis by simp
    qed
    then have "\<forall>rs2 st2 out2 p2. on_message fits conv rs2 st' ws (Parsed parsed) = (st2, out2, p2) \<longrightarrow>
          elems (shapes_of st2 (roomId m)) = [] \<and> p2 = None \<and>
          (\<forall>c x. (c, x) \<in> set out2 \<longrightarrow> x = Sync []) \<and>
          (\<forall>c. room_member rs2 st' (roomId m) c \<longrightarrow> (c, Sync []) \<in> set out2)"
      by (intro allI impI)
    with e o1 show ?thesis by simp
  qed
  show ?thesis
    apply (rule conjI)
     apply (rule p)
    apply (rule conjI)
     apply (rule sh)
    apply (rule conjI)
     apply (rule impI)
     apply (erule ok)
    apply (rule conjI)
     apply (rule impI)
     apply (erule bad)
    apply (rule conjI)
     apply (rule impI)
     apply (erule same)
    apply (rule impI)
    apply (erule twice)
    done
qed

text \<open>C4 at three inputs: on the document of one shape, a delete at index 5 and a delete at
  index 0; on the document of 600000001 slots, a delete at the index just past its end.\<close>

theorem delete_numeric_index_witness:
  "on_message engine_fits conv_unused all_open one_shape_state 1 (Parsed (delete_msg (Fin 5)))
     = (one_shape_state, [(1, Sync [Some line])], None) \<and>
   on_message engine_fits conv_unused all_open one_shape_state 1 (Parsed (delete_msg (Fin 0)))
     = (set_shapes one_shape_state (JStr ''r1'') empty_array, [(1, Sync [])], None) \<and>
   elems (shapes_of (set_shapes one_shape_state (JStr ''r1'') empty_array) (JStr ''r1'')) = [] \<and>
   fst (snd (on_message engine_fits conv_unused all_open huge_state 1
               (Parsed (delete_msg (Fin 600000001)))))
     = [(1, Error ''Server error'')]"
proof -
  have reg: "map_get (activeClients one_shape_state) 1 = Some \<lparr>userId = Fin 1, roomId = JStr ''r1''\<rparr>"
    by (simp add: one_shape_state_def map_get_def)
  have ty: "field (delete_msg n) ''type'' = Some (JStr ''delete'')"
    and idx: "field (delete_msg n) ''index'' = Some (JNum n)" for n
    by (simp_all add: delete_msg_def)
  have sh: "shapes_of one_shape_state (JStr ''r1'') = \<lparr>elems = [Some line], props = []\<rparr>"
    by (simp add: shapes_of_def one_shape_state_def map_get_def)
  have res5: "on_message engine_fits conv_unused all_open one_shape_state 1 (Parsed (delete_msg (Fin 5)))
     = (one_shape_state, [(1, Sync [Some line])], None)"
    by (simp add: handler_defs delete_msg_def one_shape_state_def all_open_def)
  have res0: "on_message engine_fits conv_unused all_open one_shape_state 1 (Parsed (delete_msg (Fin 0)))
     = (set_shapes one_shape_state (JStr ''r1'') empty_array, [(1, Sync [])], None)"
    by (simp add: handler_defs delete_msg_def one_shape_state_def all_open_def)
  from delete_numeric_index [OF reg ty idx res0] sh
  have b: "elems (shapes_of (set_shapes one_shape_state (JStr ''r1'') empty_array) (JStr ''r1'')) = []"
    by (simp add: array_splice1_def splice_start_def)
  have regh: "map_get (activeClients huge_state) 1 = Some \<lparr>userId = Fin 1, roomId = JStr ''r1''\<rparr>"
    by (simp add: huge_state_def map_get_def)
  have shh: "elems (shapes_of huge_state (JStr ''r1'')) = replicate 600000000 None @ [Some line]"
    by (simp add: shapes_of_def huge_state_def map_get_def)
  obtain st' out p where resh:
    "on_message engine_fits conv_unused all_open huge_state 1 (Parsed (delete_msg (Fin 600000001)))
       = (st', out, p)"
    by (rule prod_cases3)
  note big = delete_numeric_index [OF regh ty idx resh]
  have past: "\<exists>q. Fin 600000001 = Fin q \<and>
      of_nat (length (elems (shapes_of huge_state (roomId \<lparr>userId = Fin 1, roomId = JStr ''r1''\<rparr>)))) \<le> q"
    by (simp add: shh)
  from big past
  have "shapes_of st' (roomId \<lparr>userId = Fin 1, roomId = JStr ''r1''\<rparr>)
          = shapes_of huge_state (roomId \<lparr>userId = Fin 1, roomId = JStr ''r1''\<rparr>)"
    by blast
  then have "\<not> serialisable engine_fits
                (elems (shapes_of st' (roomId \<lparr>userId = Fin 1, roomId = JStr ''r1''\<rparr>)))"
    by (simp add: shh serialisable_def engine_fits_def)
  with big have "out = [(1, Error ''Server error'')]"
    by blast
  then have c: "fst (snd (on_message engine_fits conv_unused all_open huge_state 1
               (Parsed (delete_msg (Fin 600000001)))))
     = [(1, Error ''Server error'')]"
    unfolding resh by simp
  from res5 res0 b c show ?thesis by (intro conjI)
qed

text \<open>C4 as stated (a negative index leaves the sequence unchanged) fails: \<open>splice\<close>
  counts a negative start from the end, so a delete at index -1 on a document of two
  shapes removes the last one.\<close>

theorem delete_negative_removes_last:
  "elems (shapes_of (server (run engine_fits conv_unused two_shapes)) (JStr ''r1'')) = [Some line, Some circle] \<and>
   elems (shapes_of (server (run engine_fits conv_unused
       (two_shapes @ [EvMessage 1 (Parsed (delete_msg (Fin (- 1))))]))) (JStr ''r1'')) = [Some line]"
  by (simp add: scenario_defs handler_defs ceiling_minus)

subsection \<open>Registration that the room lookup does not confirm\<close>



subsection \<open>Chat messages when persistence fails\<close>

text \<open>
  C6. For a \<open>message\<close> from a registered connection, the handler changes nothing and
  sends neither \<open>message-sent\<close> nor \<open>new-message\<close> before \<open>chat.create\<close> has answered;
  and when it is suspended on \<open>chat.create\<close> and that call fails, the continuation sends
  only the error \<open>Server error\<close>, to the sender, and changes nothing: no connection
  receives the chat payload.
\<close>

theorem failed_persistence_delivers_nothing:
  assumes "map_get (activeClients st) ws = Some m"
    and "field parsed ''type'' = Some (JStr ''message'')"
    and "on_message fits conv rs st ws (Parsed parsed) = (st1, out, p)"
  shows "st1 = st \<and>
         (\<forall>c chat. (c, MessageSent chat) \<notin> set out \<and> (c, NewMessage chat) \<notin> set out) \<and>
         (\<forall>q. p = Some q \<longrightarrow>
            (\<exists>room uid text. q = AwaitChat ws room uid text \<and>
               resume_chat rs' st' ws room ChatThrows = (st', [(ws, Error ''Server error'')])))"
proof -
  have "parsed \<noteq> JNull" using assms(2) by auto
  then have "on_message fits conv rs st ws (Parsed parsed) = case_message conv st ws (Some m) parsed"
    using assms(1,2) by (simp add: on_message_def)
  with assms(3) have "case_message conv st ws (Some m) parsed = (st1, out, p)" by simp
  then show ?thesis
    by (auto simp: case_message_def resume_chat_def Let_def split: option.splits if_splits)
qed

text \<open>C6 at an input: user 1 sends a chat message in r1 and the database fails.\<close>

theorem failed_persistence_delivers_nothing_witness:
  "on_message engine_fits conv_unused all_open solo_state 1 (Parsed chat_obj)
     = (solo_state, [], Some (AwaitChat 1 (JStr ''r1'') (Fin 1) (Some (JStr ''hello'')))) \<and>
   resume_chat all_open solo_state 1 (JStr ''r1'') ChatThrows
     = (solo_state, [(1, Error ''Server error'')])"
proof -
  have reg: "map_get (activeClients solo_state) 1 = Some \<lparr>userId = Fin 1, roomId = JStr ''r1''\<rparr>"
    by (simp add: solo_state_def map_get_def)
  have ty: "field chat_obj ''type'' = Some (JStr ''message'')"
    by (simp add: chat_obj_def)
  have res: "on_message engine_fits conv_unused all_open solo_state 1 (Parsed chat_obj)
     = (solo_state, [], Some (AwaitChat 1 (JStr ''r1'') (Fin 1) (Some (JStr ''hello''))))"
    by (simp add: on_message_def case_message_def chat_obj_def solo_state_def map_get_def
        strict_eq_num_def Let_def)
  from failed_persistence_delivers_nothing [OF reg ty res, where rs' = all_open and st' = solo_state]
  have "resume_chat all_open solo_state 1 (JStr ''r1'') ChatThrows
     = (solo_state, [(1, Error ''Server error'')])"
    by simp
  with res show ?thesis by simp
qed

subsection \<open>Who receives a stream delta and who a sync\<close>

text \<open>
  The recipients of the drawing broadcasts, in any state. For a registered sender: a
  \<open>stream\<close> delta goes to every other connection that passes the broadcast guard of the
  sender's room (open, registered in that room, its user in the room's presence set), and
  nothing at all is sent to the sender; the \<open>sync\<close> payloads of \<open>draw\<close> (on a document
  below the maximal array length), \<open>move\<close> (with a numeric index) and \<open>clear\<close> go to every
  connection that passes the guard, the sender included when it does, provided the
  document they carry can be serialised.
\<close>

theorem broadcast_recipients:
  assumes "map_get (activeClients st) ws = Some m"
    and "field parsed ''type'' = Some (JStr t)"
    and "on_message fits conv rs st ws (Parsed parsed) = (st', out, p)"
  shows
   "(t = ''stream'' \<longrightarrow>
       (\<forall>n. field parsed ''index'' = Some (JNum n) \<longrightarrow>
          (\<forall>c. c \<noteq> ws \<and> room_member rs st (roomId m) c \<longrightarrow>
             (c, Stream (field parsed ''element'') n (field parsed ''color'') (userId m)) \<in> set out)) \<and>
       (\<forall>x. (ws, x) \<notin> set out)) \<and>
    (t = ''draw'' \<and> length (elems (shapes_of st (roomId m))) < 4294967295 \<and>
     serialisable fits (elems (shapes_of st (roomId m)) @ [field parsed ''element'']) \<longrightarrow>
       (\<forall>c. room_member rs st (roomId m) c \<longrightarrow>
          (c, Sync (elems (shapes_of st (roomId m)) @ [field parsed ''element''])) \<in> set out)) \<and>
    (t = ''move'' \<longrightarrow>
       (\<forall>n. field parsed ''index'' = Some (JNum n) \<and>
            serialisable fits
              (elems (array_assign (shapes_of st (roomId m)) n (field parsed ''element''))) \<longrightarrow>
          (\<forall>c. room_member rs st (roomId m) c \<longrightarrow>
             (c, Sync (elems (array_assign (shapes_of st (roomId m)) n (field parsed ''element''))))
               \<in> set out))) \<and>
    (t = ''clear'' \<longrightarrow>
       (\<forall>c. room_member rs st (roomId m) c \<longrightarrow> (c, Sync []) \<in> set out))"
proof (intro conjI impI)
  assume t: "t = ''stream''"
  have cs: "case_shapes fits rs st ws (Some m) ''stream'' parsed = (st', out, p)"
    using on_message_shapes [OF assms(1,2)] assms(3) t by simp
  show "\<forall>n. field parsed ''index'' = Some (JNum n) \<longrightarrow>
          (\<forall>c. c \<noteq> ws \<and> room_member rs st (roomId m) c \<longrightarrow>
             (c, Stream (field parsed ''element'') n (field parsed ''color'') (userId m)) \<in> set out)"
  proof (intro allI impI)
    fix n c
    assume n: "field parsed ''index'' = Some (JNum n)"
      and c: "c \<noteq> ws \<and> room_member rs st (roomId m) c"
    from cs n have "out = broadcastToRoom rs st (roomId m)
        (Stream (field parsed ''element'') n (field parsed ''color'') (userId m)) (Some ws)"
      by (simp add: case_shapes_def Let_def broadcastStream_eq broadcast_set_shapes)
    with c show "(c, Stream (field parsed ''element'') n (field parsed ''color'') (userId m)) \<in> set out"
      by (simp add: room_member_broadcast)
  qed
  show "\<forall>x. (ws, x) \<notin> set out"
  proof (cases "\<exists>n. field parsed ''index'' = Some (JNum n)")
    case True
    then obtain n where n: "field parsed ''index'' = Some (JNum n)" ..
    from cs n have "out = broadcastToRoom rs st (roomId m)
        (Stream (field parsed ''element'') n (field parsed ''color'') (userId m)) (Some ws)"
      by (simp add: case_shapes_def Let_def broadcastStream_eq broadcast_set_shapes)
    then show ?thesis using broadcast_sound by blast
  next
    case False
    then have "(case field parsed ''index'' of Some (JNum n) \<Rightarrow> f n | _ \<Rightarrow> d) = d" for f and d :: outcome
      by (auto split: option.splits json.splits)
    with cs have "out = []" by (simp add: case_shapes_def Let_def)
    then show ?thesis by simp
  qed
next
  assume t: "t = ''draw'' \<and> length (elems (shapes_of st (roomId m))) < 4294967295 \<and>
     serialisable fits (elems (shapes_of st (roomId m)) @ [field parsed ''element''])"
  have cs: "case_shapes fits rs st ws (Some m) ''draw'' parsed = (st', out, p)"
    using on_message_shapes [OF assms(1,2)] assms(3) t by simp
  with t have "out = broadcastToRoom rs st (roomId m)
        (Sync (elems (shapes_of st (roomId m)) @ [field parsed ''element''])) None"
    by (simp add: case_shapes_def Let_def array_push_def broadcast_set_shapes stringify_throws_def)
  then show "\<forall>c. room_member rs st (roomId m) c \<longrightarrow>
          (c, Sync (elems (shapes_of st (roomId m)) @ [field parsed ''element''])) \<in> set out"
    by (simp add: room_member_broadcast)
next
  assume t: "t = ''move''"
  have cs: "case_shapes fits rs st ws (Some m) ''move'' parsed = (st', out, p)"
    using on_message_shapes [OF assms(1,2)] assms(3) t by simp
  show "\<forall>n. field parsed ''index'' = Some (JNum n) \<and>
            serialisable fits
              (elems (array_assign (shapes_of st (roomId m)) n (field parsed ''element''))) \<longrightarrow>
          (\<forall>c. room_member rs st (roomId m) c \<longrightarrow>
             (c, Sync (elems (array_assign (shapes_of st (roomId m)) n (field parsed ''element''))))
               \<in> set out)"
  proof (intro allI impI)
    fix n c
    assume n: "field parsed ''index'' = Some (JNum n) \<and>
            serialisable fits
              (elems (array_assign (shapes_of st (roomId m)) n (field parsed ''element'')))"
      and c: "room_member rs st (roomId m) c"
    from cs n have "out = broadcastToRoom rs st (roomId m)
        (Sync (elems (array_assign (shapes_of st (roomId m)) n (field parsed ''element'')))) None"
      by (simp add: case_shapes_def Let_def broadcast_set_shapes stringify_throws_def)
    with c show "(c, Sync (elems (array_assign (shapes_of st (roomId m)) n (field parsed ''element''))))
               \<in> set out"
      by (simp add: room_member_broadcast)
  qed
next
  assume t: "t = ''clear''"
  have cs: "case_shapes fits rs st ws (Some m) ''clear'' parsed = (st', out, p)"
    using on_message_shapes [OF assms(1,2)] assms(3) t by simp
  then have "out = broadcastToRoom rs st (roomId m) (Sync []) None"
    by (simp add: case_shapes_def Let_def broadcast_set_shapes)
  then show "\<forall>c. room_member rs st (roomId m) c \<longrightarrow> (c, Sync []) \<in> set out"
    by (simp add: room_member_broadcast)
qed

text \<open>At two inputs: with users 1 and 2 in r1, user 1 streams and user 1 draws.\<close>

theorem broadcast_recipients_witness:
  "room_member all_open pair_state (JStr ''r1'') 1 \<and>
   room_member all_open pair_state (JStr ''r1'') 2 \<and>
   on_message engine_fits conv_unused all_open pair_state 1 (Parsed stream_at_zero)
     = (set_shapes pair_state (JStr ''r1'') \<lparr>elems = [Some line], props = []\<rparr>,
        [(2, Stream (Some line) (Fin 0) None (Fin 1))], None) \<and>
   on_message engine_fits conv_unused all_open pair_state 1 (Parsed (draw_msg line))
     = (set_shapes pair_state (JStr ''r1'') \<lparr>elems = [Some line], props = []\<rparr>,
        [(1, Sync [Some line]), (2, Sync [Some line])], None) \<and>
   (2, Stream (Some line) (Fin 0) None (Fin 1))
     \<in> set [(2, Stream (Some line) (Fin 0) None (Fin 1))] \<and>
   (1, Sync [Some line]) \<in> set [(1, Sync [Some line]), (2, Sync [Some line])]"
proof -
  have reg: "map_get (activeClients pair_state) 1 = Some \<lparr>userId = Fin 1, roomId = JStr ''r1''\<rparr>"
    by (simp add: pair_state_def map_get_def)
  have m1: "room_member all_open pair_state (JStr ''r1'') 1"
    and m2: "room_member all_open pair_state (JStr ''r1'') 2"
    by (simp_all add: room_member_def pair_state_def map_get_def all_open_def)
  have ty_s: "field stream_at_zero ''type'' = Some (JStr ''stream'')"
    and idx: "field stream_at_zero ''index'' = Some (JNum (Fin 0))"
    and el: "field stream_at_zero ''element'' = Some line"
    and col: "field stream_at_zero ''color'' = None"
    by (simp_all add: stream_at_zero_def)
  have ty_d: "field (draw_msg line) ''type'' = Some (JStr ''draw'')"
    and el_d: "field (draw_msg line) ''element'' = Some line"
    by (simp_all add: draw_msg_def)
  have res_s: "on_message engine_fits conv_unused all_open pair_state 1 (Parsed stream_at_zero)
     = (set_shapes pair_state (JStr ''r1'') \<lparr>elems = [Some line], props = []\<rparr>,
        [(2, Stream (Some line) (Fin 0) None (Fin 1))], None)"
    by (simp add: handler_defs stream_at_zero_def pair_state_def all_open_def)
  have res_d: "on_message engine_fits conv_unused all_open pair_state 1 (Parsed (draw_msg line))
     = (set_shapes pair_state (JStr ''r1'') \<lparr>elems = [Some line], props = []\<rparr>,
        [(1, Sync [Some line]), (2, Sync [Some line])], None)"
    by (simp add: handler_defs draw_msg_def pair_state_def all_open_def)
  have len: "length (elems (shapes_of pair_state (JStr ''r1''))) < 4294967295"
    and sh: "elems (shapes_of pair_state (JStr ''r1'')) = []"
    by (simp_all add: shapes_of_def pair_state_def map_get_def empty_array_def)
  from broadcast_recipients [OF reg ty_s res_s] idx el col m2
  have s: "(2, Stream (Some line) (Fin 0) None (Fin 1))
     \<in> set [(2, Stream (Some line) (Fin 0) None (Fin 1))]"
    by simp
  have fit: "serialisable engine_fits [Some line]"
    by (simp add: serialisable_def)
  from broadcast_recipients [OF reg ty_d res_d] el_d len sh m1 fit
  have d: "(1, Sync [Some line]) \<in> set [(1, Sync [Some line]), (2, Sync [Some line])]"
    by simp
  from m1 m2 res_s res_d s d show ?thesis by (intro conjI)
qed

text \<open>
  C7. A \<open>stream\<close> delta should reach every other open registered member of the sender's
  room, and a \<open>sync\<close> the sender as well. In the state the close handler leaves behind
  when the first of user 1's two connections has closed, this fails for the surviving
  connection 2, which is open and registered in r1 while its user is gone from the
  presence set: a stream from connection 3 of the same room is sent to nobody, and the
  \<open>sync\<close> of a draw by connection 2 itself goes to connection 3 only.
\<close>

theorem survivor_gets_no_broadcast:
  "readyState (run engine_fits conv_unused lone_tab) 2 = OPEN \<and>
   readyState (run engine_fits conv_unused lone_tab) 3 = OPEN \<and>
   map_get (activeClients (server (run engine_fits conv_unused lone_tab))) 2
     = Some \<lparr>userId = Fin 1, roomId = JStr ''r1''\<rparr> \<and>
   map_get (activeClients (server (run engine_fits conv_unused lone_tab))) 3
     = Some \<lparr>userId = Fin 2, roomId = JStr ''r1''\<rparr> \<and>
   fst (snd (on_message engine_fits conv_unused (readyState (run engine_fits conv_unused lone_tab))
               (server (run engine_fits conv_unused lone_tab)) 3 (Parsed stream_at_zero))) = [] \<and>
   fst (snd (on_message engine_fits conv_unused (readyState (run engine_fits conv_unused lone_tab))
               (server (run engine_fits conv_unused lone_tab)) 2 (Parsed (draw_msg line))))
     = [(3, Sync [Some line])]"
  by (simp add: scenario_defs handler_defs stream_at_zero_def)

subsection \<open>Draw, then init\<close>

text \<open>
  C8. In a room whose document is empty, after a \<open>draw\<close> from one registered connection
  an \<open>init\<close> from another registered connection of the same room is answered, to that
  connection only, with the sequence that holds exactly the drawn element; the \<open>init\<close>
  changes nothing.
\<close>

theorem draw_then_init:
  assumes "map_get (activeClients st) a = Some ma"
    and "map_get (activeClients st) b = Some mb"
    and "roomId mb = roomId ma"
    and "elems (shapes_of st (roomId ma)) = []"
    and "field qd ''type'' = Some (JStr ''draw'')"
    and "field qi ''type'' = Some (JStr ''init'')"
    and "on_message fits conv rs st a (Parsed qd) = (st1, out1, p1)"
  shows "on_message fits conv rs' st1 b (Parsed qi) = (st1, [(b, Init [field qd ''element''])], None)"
proof -
  have nd: "qd \<noteq> JNull" and ni: "qi \<noteq> JNull"
    using assms(5,6) by auto
  have push: "array_push (shapes_of st (roomId ma)) v
      = Inr ((shapes_of st (roomId ma))\<lparr>elems := [v]\<rparr>)" for v
    using assms(4) by (simp add: array_push_def)
  have "on_message fits conv rs st a (Parsed qd) = case_shapes fits rs st a (Some ma) ''draw'' qd"
    using assms(1,5) nd by (simp add: on_message_def)
  with assms(7) have st1: "st1 = set_shapes st (roomId ma) ((shapes_of st (roomId ma))\<lparr>elems := [field qd ''element'']\<rparr>)"
    by (auto simp: case_shapes_def push Let_def split: if_splits)
  have b: "map_get (activeClients st1) b = Some mb"
    using assms(2) by (simp add: st1 clients_set_shapes)
  have sh: "elems (shapes_of st1 (roomId mb)) = [field qd ''element'']"
    by (simp add: st1 assms(3) shapes_of_set_shapes)
  have "on_message fits conv rs' st1 b (Parsed qi) = case_shapes fits rs' st1 b (Some mb) ''init'' qi"
    using b assms(6) ni by (simp add: on_message_def)
  then show ?thesis
    by (simp add: case_shapes_def sh Let_def stringify_throws_def serialisable_def)
qed

text \<open>C8 at an input: user 1 draws a line in r1, user 2 asks for the document.\<close>

theorem draw_then_init_witness:
  "on_message engine_fits conv_unused all_open pair_state 1 (Parsed (draw_msg line))
     = (set_shapes pair_state (JStr ''r1'') \<lparr>elems = [Some line], props = []\<rparr>,
        [(1, Sync [Some line]), (2, Sync [Some line])], None) \<and>
   on_message engine_fits conv_unused all_open
     (set_shapes pair_state (JStr ''r1'') \<lparr>elems = [Some line], props = []\<rparr>) 2 (Parsed init_msg)
     = (set_shapes pair_state (JStr ''r1'') \<lparr>elems = [Some line], props = []\<rparr>,
        [(2, Init [Some line])], None)"
proof -
  have a: "map_get (activeClients pair_state) 1 = Some \<lparr>userId = Fin 1, roomId = JStr ''r1''\<rparr>"
    by (simp add: pair_state_def map_get_def)
  have b: "map_get (activeClients pair_state) 2 = Some \<lparr>userId = Fin 2, roomId = JStr ''r1''\<rparr>"
    by (simp add: pair_state_def map_get_def)
  have r: "roomId \<lparr>userId = Fin 2, roomId = JStr ''r1''\<rparr> = roomId \<lparr>userId = Fin 1, roomId = JStr ''r1''\<rparr>"
    by simp
  have e: "elems (shapes_of pair_state (roomId \<lparr>userId = Fin 1, roomId = JStr ''r1''\<rparr>)) = []"
    by (simp add: shapes_of_def pair_state_def map_get_def empty_array_def)
  have d: "field (draw_msg line) ''type'' = Some (JStr ''draw'')"
    by (simp add: draw_msg_def)
  have i: "field init_msg ''type'' = Some (JStr ''init'')"
    by (simp add: init_msg_def)
  have res: "on_message engine_fits conv_unused all_open pair_state 1 (Parsed (draw_msg line))
     = (set_shapes pair_state (JStr ''r1'') \<lparr>elems = [Some line], props = []\<rparr>,
        [(1, Sync [Some line]), (2, Sync [Some line])], None)"
    by (simp add: on_message_def case_shapes_def draw_msg_def pair_state_def map_get_def
        shapes_of_def empty_array_def array_push_def set_shapes_def broadcastToRoom_def
        stringify_throws_def serialisable_def all_open_def Let_def)
  from draw_then_init [OF a b r e d i res, where rs' = all_open]
  have "on_message engine_fits conv_unused all_open
     (set_shapes pair_state (JStr ''r1'') \<lparr>elems = [Some line], props = []\<rparr>) 2 (Parsed init_msg)
     = (set_shapes pair_state (JStr ''r1'') \<lparr>elems = [Some line], props = []\<rparr>,
        [(2, Init [Some line])], None)"
    by (simp add: draw_msg_def)
  with res show ?thesis by (rule conjI)
qed

subsection \<open>Signalling relay\<close>




subsection \<open>Messages without a numeric index\<close>

text \<open>
  C10. For a registered connection, a \<open>stream\<close>, \<open>move\<close> or \<open>delete\<close> message whose
  \<open>index\<close> is absent or not a number is ignored: the handler sends nothing to anybody,
  suspends on nothing, and the whole state, the room's document included, stays as it was.
\<close>

theorem non_numeric_index_ignored:
  assumes "map_get (activeClients st) ws = Some m"
    and "field parsed ''type'' = Some (JStr t)"
    and "t = ''stream'' \<or> t = ''move'' \<or> t = ''delete''"
    and "\<forall>n. field parsed ''index'' \<noteq> Some (JNum n)"
  shows "on_message fits conv rs st ws (Parsed parsed) = (st, [], None)"
proof -
  have idx: "(case field parsed ''index'' of Some (JNum n) \<Rightarrow> f n | _ \<Rightarrow> d) = d" for f and d :: outcome
    using assms(4) by (auto split: option.splits json.splits)
  have "on_message fits conv rs st ws (Parsed parsed) = case_shapes fits rs st ws (Some m) t parsed"
    using assms(3) by (intro on_message_shapes [OF assms(1,2)]) auto
  moreover have "case_shapes fits rs st ws (Some m) t parsed = (st, [], None)"
    using assms(3) by (auto simp: case_shapes_def idx)
  ultimately show ?thesis by simp
qed

text \<open>C10 at an input: a delete whose index is the string "0", on the document of one
  shape.\<close>

theorem non_numeric_index_ignored_witness:
  "on_message engine_fits conv_unused all_open one_shape_state 1 (Parsed delete_text_index)
     = (one_shape_state, [], None)"
  by (rule non_numeric_index_ignored [where t = "''delete''"])
     (simp_all add: map_get_def one_shape_state_def delete_text_index_def)

end
